theory Spec2Isabelle
  imports Main "HOL-Library.Word"
begin

section \<open>Data model\<close>

text \<open>
  The connection state of \<^verbatim>\<open>WebSocket.h\<close>, in the order of the C++ enumeration.
\<close>

datatype WebSocketConnectState = DISCONNECTED | CONNECTING | CONNECTED

text \<open>
  Pointers into the LWS layer (\<^verbatim>\<open>lws_context *\<close>, \<^verbatim>\<open>lws *\<close>) and to the message
  handler are opaque addresses; \<open>None\<close> is \<^verbatim>\<open>nullptr\<close>.
\<close>

type_synonym lws_context_ptr = "nat option"
type_synonym lws_ptr = "nat option"
type_synonym handler_ptr = "nat option"

text \<open>
  The ways a call can fail to return normally: a member call through a null pointer, and a
  wait that no other thread ever ends.
\<close>

datatype failure = NullPointerDereference | NeverReturns

text \<open>
  Everything the code does to the outside world or to a field of the session that other
  threads read is recorded, in program order, in a trace: the calls into pthread, libc and
  LWS, and the stores to the fields of \<^verbatim>\<open>WebSocket\<close>. The trace is a ghost field of
  the model; the C++ object has no such member.
\<close>

datatype effect =
    MutexInit
  | MutexLock
  | MutexUnlock
  | MutexDestroy
  | PthreadCreate
  | PthreadJoin
  | USleep nat
  | Sleep nat
  | LwsCreateContext string
  | LwsClientConnect lws_context_ptr string "32 word" string string string
  | LwsService lws_context_ptr nat
  | LwsWrite lws_ptr string
  | LwsCallbackOnWritable lws_ptr
  | HandlerHandle string
  | StoreContext lws_context_ptr
  | StoreHandle lws_ptr
  | StoreConnectState WebSocketConnectState
  | StoreWritable bool
  | StoreWatchdogRunning bool
  | StoreHandler handler_ptr
  | PushBack string
  | EraseBegin string
  | ClearMessages "string list"
  | DeleteQueue

section \<open>SynchronousBlockingQueue\<close>

text \<open>
  The class of \<^verbatim>\<open>SynchronousBlockingQueue.h\<close>: a flag and one element. Its mutex and
  condition variable carry no data; what they do is in the model of \<open>Take\<close> below.
\<close>

record 'e SynchronousBlockingQueue =
  ready_to_unlock :: bool
  element :: 'e

text \<open>
  The constructor sets the flag to false and default-constructs the element; the source
  instantiates the template at \<^verbatim>\<open>std::string\<close> only, whose default is the empty string.
\<close>

definition SynchronousBlockingQueue_new :: "string SynchronousBlockingQueue" where
  "SynchronousBlockingQueue_new = \<lparr>ready_to_unlock = False, element = []\<rparr>"

definition Offer :: "'e \<Rightarrow> 'e SynchronousBlockingQueue \<Rightarrow> 'e SynchronousBlockingQueue" where
  "Offer e q = q\<lparr>element := e, ready_to_unlock := True\<rparr>"

text \<open>
  What the producer thread does while the consumer is suspended in one \<^verbatim>\<open>cv_.wait(lk)\<close>:
  the values it passes to \<open>Offer\<close>, in order. The empty list is a spurious wake-up.
\<close>

definition offer_all :: "'e list \<Rightarrow> 'e SynchronousBlockingQueue \<Rightarrow> 'e SynchronousBlockingQueue" where
  "offer_all es q = foldl (\<lambda>q' e. Offer e q') q es"

text \<open>
  The loop \<^verbatim>\<open>while (!ready_to_unlock_) cv_.wait(lk);\<close> followed by
  \<^verbatim>\<open>return element_;\<close>. The schedule lists what the producer does during each
  wait; when the flag is false and the schedule is exhausted no thread will ever set the
  flag, and the call never returns (\<open>None\<close>).
\<close>

fun Take_wait :: "'e list list \<Rightarrow> 'e SynchronousBlockingQueue
    \<Rightarrow> ('e \<times> 'e SynchronousBlockingQueue) option" where
  "Take_wait [] q = (if ready_to_unlock q then Some (element q, q) else None)"
| "Take_wait (offers # sched) q =
     (if ready_to_unlock q then Some (element q, q)
      else Take_wait sched (offer_all offers q))"

text \<open>
  \<^verbatim>\<open>Take\<close> first stores false into the flag, then takes the lock and runs the loop.
  The store is made before the lock is taken; the model orders it before everything the
  producer does during the call.
\<close>

definition Take :: "'e list list \<Rightarrow> 'e SynchronousBlockingQueue
    \<Rightarrow> ('e \<times> 'e SynchronousBlockingQueue) option" where
  "Take sched q = Take_wait sched (q\<lparr>ready_to_unlock := False\<rparr>)"

section \<open>WebSocket\<close>

record WebSocket =
  host :: string
  port :: "32 word"
  protocol_name :: string
  path :: string
  "context" :: lws_context_ptr
  handle :: lws_ptr
  connection_state :: WebSocketConnectState
  writable :: bool
  enqueued_messages :: "string list"
  incoming_message_handler :: handler_ptr
  queue :: "string SynchronousBlockingQueue"
  watchdog_thread_running :: bool
  trace :: "effect list"

definition emit :: "effect \<Rightarrow> WebSocket \<Rightarrow> WebSocket" where
  "emit e ws = ws\<lparr>trace := trace ws @ [e]\<rparr>"

text \<open>
  The constructor: the member initialisers, then \<^verbatim>\<open>pthread_mutex_init\<close> and
  \<^verbatim>\<open>pthread_create\<close>. The watchdog thread it starts is modelled by
  \<open>RunWatchdog_iteration\<close> below.
\<close>

definition WebSocket_new :: "string \<Rightarrow> 32 word \<Rightarrow> string \<Rightarrow> string \<Rightarrow> WebSocket" where
  "WebSocket_new h p protocol pa =
     \<lparr>host = h, port = p, protocol_name = protocol, path = pa,
      context = None, handle = None, connection_state = DISCONNECTED,
      writable = False, enqueued_messages = [], incoming_message_handler = None,
      queue = SynchronousBlockingQueue_new, watchdog_thread_running = False,
      trace = [MutexInit, PthreadCreate]\<rparr>"

subsection \<open>Accessors\<close>

definition GetHost :: "WebSocket \<Rightarrow> string" where
  "GetHost ws = host ws"

definition GetPort :: "WebSocket \<Rightarrow> 32 word" where
  "GetPort ws = port ws"

text \<open>\<^verbatim>\<open>std::to_string(int)\<close>: the decimal digits, with a minus sign when negative.\<close>

definition digit :: "nat \<Rightarrow> char" where
  "digit d = ''0123456789'' ! d"

fun decimal :: "nat \<Rightarrow> string" where
  "decimal n =
     (if n < 10 then [digit n]
      else decimal (n div 10) @ [digit (n mod 10)])"

declare decimal.simps [simp del]

definition to_string :: "32 word \<Rightarrow> string" where
  "to_string w = (if sint w < 0 then CHR ''-'' # decimal (nat (- sint w)) else decimal (nat (sint w)))"

definition GetHostAddress :: "WebSocket \<Rightarrow> string" where
  "GetHostAddress ws = host ws @ '':'' @ to_string (port ws)"

definition GetProtocolName :: "WebSocket \<Rightarrow> string" where
  "GetProtocolName ws = protocol_name ws"

definition GetServerUrlPath :: "WebSocket \<Rightarrow> string" where
  "GetServerUrlPath ws = path ws"

definition SetContext :: "lws_context_ptr \<Rightarrow> WebSocket \<Rightarrow> WebSocket" where
  "SetContext c ws = emit (StoreContext c) (ws\<lparr>context := c\<rparr>)"

definition GetContext :: "WebSocket \<Rightarrow> lws_context_ptr" where
  "GetContext ws = context ws"

definition SetHandle :: "lws_ptr \<Rightarrow> WebSocket \<Rightarrow> WebSocket" where
  "SetHandle h ws = emit (StoreHandle h) (ws\<lparr>handle := h\<rparr>)"

definition GetHandle :: "WebSocket \<Rightarrow> lws_ptr" where
  "GetHandle ws = handle ws"

definition SetConnectState :: "WebSocketConnectState \<Rightarrow> WebSocket \<Rightarrow> WebSocket" where
  "SetConnectState st ws = emit (StoreConnectState st) (ws\<lparr>connection_state := st\<rparr>)"

definition GetConnectState :: "WebSocket \<Rightarrow> WebSocketConnectState" where
  "GetConnectState ws = connection_state ws"

definition SetWritable :: "bool \<Rightarrow> WebSocket \<Rightarrow> WebSocket" where
  "SetWritable b ws = emit (StoreWritable b) (ws\<lparr>writable := b\<rparr>)"

definition IsWritable :: "WebSocket \<Rightarrow> bool" where
  "IsWritable ws = writable ws"

definition GetQueue :: "WebSocket \<Rightarrow> string SynchronousBlockingQueue" where
  "GetQueue ws = queue ws"

text \<open>
  \<^verbatim>\<open>SetIncomingMessageHandler\<close> stores the pointer and then calls \<^verbatim>\<open>SetQueue\<close>
  through it, which a null pointer cannot take.
\<close>

definition SetIncomingMessageHandler :: "handler_ptr \<Rightarrow> WebSocket \<Rightarrow> failure + WebSocket" where
  "SetIncomingMessageHandler h ws =
     (let ws1 = emit (StoreHandler h) (ws\<lparr>incoming_message_handler := h\<rparr>)
      in if h = None then Inl NullPointerDereference else Inr ws1)"

definition GetIncomingMessageHandler :: "WebSocket \<Rightarrow> handler_ptr" where
  "GetIncomingMessageHandler ws = incoming_message_handler ws"

subsection \<open>The outbound queue\<close>

definition EnqueueMessage :: "string \<Rightarrow> WebSocket \<Rightarrow> WebSocket" where
  "EnqueueMessage message ws =
     emit (PushBack message) (ws\<lparr>enqueued_messages := enqueued_messages ws @ [message]\<rparr>)"

definition HasEnqueuedMessages :: "WebSocket \<Rightarrow> bool" where
  "HasEnqueuedMessages ws = (enqueued_messages ws \<noteq> [])"

text \<open>
  \<^verbatim>\<open>RemoveOldestEnqueuedMessage\<close> starts from the empty string and reads element 0 only
  behind the \<^verbatim>\<open>HasEnqueuedMessages\<close> test, so the read is never out of range.
\<close>

definition RemoveOldestEnqueuedMessage :: "WebSocket \<Rightarrow> string \<times> WebSocket" where
  "RemoveOldestEnqueuedMessage ws =
     (if HasEnqueuedMessages ws then
        (case enqueued_messages ws of
           m # rest \<Rightarrow> (m, emit (EraseBegin m) (ws\<lparr>enqueued_messages := rest\<rparr>))
         | [] \<Rightarrow> ([], ws))
      else ([], ws))"

subsection \<open>Writing and sending\<close>

text \<open>
  \<^verbatim>\<open>WriteMessageToWebSocket\<close>: the buffer is local; what remains is the call of
  \<^verbatim>\<open>lws_write\<close> on the stored handle, the store to \<^verbatim>\<open>writable_\<close> and the request
  for the next writable callback.
\<close>

definition WriteMessageToWebSocket :: "string \<Rightarrow> WebSocket \<Rightarrow> WebSocket" where
  "WriteMessageToWebSocket message ws =
     (let ws1 = emit (LwsWrite (handle ws) message) ws;
          ws2 = emit (StoreWritable False) (ws1\<lparr>writable := False\<rparr>)
      in emit (LwsCallbackOnWritable (handle ws2)) ws2)"

definition SendAsync :: "string \<Rightarrow> WebSocket \<Rightarrow> WebSocket" where
  "SendAsync message ws =
     (let ws1 = emit MutexLock ws;
          ws2 = (if writable ws1 then WriteMessageToWebSocket message ws1
                 else EnqueueMessage message ws1)
      in emit MutexUnlock ws2)"

definition SetWatchDogThreadStarted :: "WebSocket \<Rightarrow> WebSocket" where
  "SetWatchDogThreadStarted ws =
     emit MutexUnlock
       (emit (StoreWatchdogRunning True)
          ((emit MutexLock ws)\<lparr>watchdog_thread_running := True\<rparr>))"

definition StopWatchDogThread :: "WebSocket \<Rightarrow> WebSocket" where
  "StopWatchDogThread ws =
     emit MutexUnlock
       (emit (StoreWatchdogRunning False)
          ((emit MutexLock ws)\<lparr>watchdog_thread_running := False\<rparr>))"

definition IsWatchDogThreadRunning :: "WebSocket \<Rightarrow> bool" where
  "IsWatchDogThreadRunning ws = watchdog_thread_running ws"

text \<open>The messages handed to \<^verbatim>\<open>lws_write\<close>, in the order of the calls.\<close>

fun written :: "effect list \<Rightarrow> string list" where
  "written [] = []"
| "written (LwsWrite h m # es) = m # written es"
| "written (e # es) = written es"

section \<open>The event dispatcher\<close>

text \<open>The callback reasons the switch of \<^verbatim>\<open>OnWebSocketEvent\<close> names; every other reason
  of the LWS enumeration takes the default branch.\<close>

datatype lws_callback_reasons =
    LWS_CALLBACK_CLIENT_ESTABLISHED
  | LWS_CALLBACK_CLIENT_CONNECTION_ERROR
  | LWS_CALLBACK_CLOSED
  | LWS_CALLBACK_CLIENT_RECEIVE
  | LWS_CALLBACK_CLIENT_WRITEABLE
  | LWS_CALLBACK_OTHER

text \<open>
  \<^verbatim>\<open>WebSocketMessageHandler::Handle\<close> is pure virtual: its implementations are outside
  the repository. The dispatcher takes as parameter what an implementation does with the
  queue it was wired to: the values it passes to \<open>Offer\<close> for a given message.

  The session is the user pointer of the context of \<open>wsi\<close>; the model passes it directly.
  The result is the returned \<^verbatim>\<open>int\<close> and the session after the callback.
\<close>

text \<open>
  The Receive branch builds \<^verbatim>\<open>std::string message((char *) in)\<close> and ignores
  \<^verbatim>\<open>len\<close>: the message is the payload up to its first NUL byte. The model takes the
  buffer as terminated at its end when the payload holds no NUL.
\<close>

definition c_string :: "string \<Rightarrow> string" where
  "c_string bytes = takeWhile (\<lambda>c. c \<noteq> CHR 0x00) bytes"

definition OnWebSocketEvent :: "(string \<Rightarrow> string list) \<Rightarrow> lws_ptr \<Rightarrow> lws_callback_reasons
    \<Rightarrow> string \<Rightarrow> WebSocket \<Rightarrow> failure + int \<times> WebSocket" where
  "OnWebSocketEvent Handle wsi reason input web_socket =
     (if wsi = None then Inr (- 1, web_socket)
      else case reason of
        LWS_CALLBACK_CLIENT_ESTABLISHED \<Rightarrow>
          (let ws1 = emit MutexLock web_socket;
               ws2 = SetConnectState CONNECTED ws1;
               ws3 = SetHandle wsi ws2;
               ws4 = emit MutexUnlock ws3
           in Inr (0, emit (LwsCallbackOnWritable wsi) ws4))
      | LWS_CALLBACK_CLIENT_CONNECTION_ERROR \<Rightarrow>
          (let ws1 = emit MutexLock web_socket;
               ws2 = SetConnectState DISCONNECTED ws1
           in Inr (0, emit MutexUnlock ws2))
      | LWS_CALLBACK_CLOSED \<Rightarrow>
          (let ws1 = emit MutexLock web_socket;
               ws2 = SetConnectState DISCONNECTED ws1
           in Inr (0, emit MutexUnlock ws2))
      | LWS_CALLBACK_CLIENT_RECEIVE \<Rightarrow>
          (let message = c_string input;
               ws1 = emit MutexLock web_socket
           in case GetIncomingMessageHandler ws1 of
                None \<Rightarrow> Inl NullPointerDereference
              | Some h \<Rightarrow>
                  (let ws2 = emit (HandlerHandle message) ws1;
                       ws3 = ws2\<lparr>queue := offer_all (Handle message) (queue ws2)\<rparr>
                   in Inr (0, emit MutexUnlock ws3)))
      | LWS_CALLBACK_CLIENT_WRITEABLE \<Rightarrow>
          (let ws1 = emit MutexLock web_socket;
               ws2 = (if HasEnqueuedMessages ws1 then
                        (let (message, ws') = RemoveOldestEnqueuedMessage ws1
                         in WriteMessageToWebSocket message ws')
                      else SetWritable True ws1)
           in Inr (0, emit MutexUnlock ws2))
      | LWS_CALLBACK_OTHER \<Rightarrow> Inr (0, web_socket))"

section \<open>The watchdog\<close>

text \<open>
  What the LWS library answers during one iteration of the watchdog loop: the events
  \<^verbatim>\<open>lws_service\<close> delivers to the callback (handle, reason, payload), the context
  \<^verbatim>\<open>lws_create_context\<close> returns and the handle \<^verbatim>\<open>lws_client_connect\<close> returns
  (null when the attempt fails).

  The protocol descriptor holds \<^verbatim>\<open>web_socket->GetProtocolName().c_str()\<close>.
  \<^verbatim>\<open>GetProtocolName\<close> returns the string by value, and that temporary is destroyed at
  the end of the declaration of \<^verbatim>\<open>protocols\<close>, before \<^verbatim>\<open>lws_create_context\<close> is
  called. What the library then reads at that address is not determined by the session: it
  is part of the environment (\<open>protocol_name_read\<close>), and need not be the protocol name.
\<close>

record lws_env =
  pending :: "(lws_ptr \<times> lws_callback_reasons \<times> string) list"
  protocol_name_read :: string
  created_context :: lws_context_ptr
  connect_result :: lws_ptr

text \<open>
  \<^verbatim>\<open>lws_service\<close> belongs to the LWS library: it calls the protocol callback once for
  each pending event, in order, and ignores what the callback returns.
\<close>

fun lws_service :: "(string \<Rightarrow> string list) \<Rightarrow> (lws_ptr \<times> lws_callback_reasons \<times> string) list
    \<Rightarrow> WebSocket \<Rightarrow> failure + WebSocket" where
  "lws_service Handle [] ws = Inr ws"
| "lws_service Handle ((wsi, reason, input) # evs) ws =
     (case OnWebSocketEvent Handle wsi reason input ws of
        Inl e \<Rightarrow> Inl e
      | Inr (r, ws') \<Rightarrow> lws_service Handle evs ws')"

text \<open>
  The body of the \<^verbatim>\<open>while\<close> loop of \<^verbatim>\<open>RunWatchdog\<close>. The arguments of
  \<^verbatim>\<open>lws_client_connect\<close> are temporaries of the call expression itself and live until
  it returns; the name given to \<^verbatim>\<open>lws_create_context\<close> is the one the environment
  reads, as said above.
\<close>

definition RunWatchdog_iteration :: "(string \<Rightarrow> string list) \<Rightarrow> lws_env \<Rightarrow> WebSocket
    \<Rightarrow> failure + WebSocket" where
  "RunWatchdog_iteration Handle env web_socket =
     (if DISCONNECTED \<noteq> GetConnectState web_socket then
        lws_service Handle (pending env) (emit (LwsService (GetContext web_socket) 500) web_socket)
      else
        (let ws1 = emit (USleep (50 * 1000)) web_socket;
             ws2 = emit (LwsCreateContext (protocol_name_read env)) ws1;
             ws3 = emit MutexLock ws2;
             ws4 = SetContext (created_context env) ws3;
             ws5 = emit (LwsClientConnect (GetContext ws4) (GetHost ws4) (GetPort ws4)
                           (GetServerUrlPath ws4) (GetHostAddress ws4) (GetHost ws4)) ws4;
             ws6 = (if connect_result env \<noteq> None then SetConnectState CONNECTING ws5 else ws5)
         in Inr (emit MutexUnlock ws6)))"

text \<open>
  The loop itself, for as many iterations as the list has answers: the guard
  \<^verbatim>\<open>IsWatchDogThreadRunning\<close> is read before each iteration.
\<close>

fun RunWatchdog_loop :: "(string \<Rightarrow> string list) \<Rightarrow> lws_env list \<Rightarrow> WebSocket
    \<Rightarrow> failure + WebSocket" where
  "RunWatchdog_loop Handle [] ws = Inr ws"
| "RunWatchdog_loop Handle (env # envs) ws =
     (if IsWatchDogThreadRunning ws then
        (case RunWatchdog_iteration Handle env ws of
           Inl e \<Rightarrow> Inl e
         | Inr ws' \<Rightarrow> RunWatchdog_loop Handle envs ws')
      else Inr ws)"

section \<open>Sequences of operations on a session\<close>

text \<open>
  The operations the three threads perform on a session: a caller's \<open>SendAsync\<close> and
  \<open>SetIncomingMessageHandler\<close>, a callback of the dispatcher, and an iteration of the
  watchdog.
\<close>

datatype operation =
    OpSendAsync string
  | OpSetHandler handler_ptr
  | OpEvent lws_ptr lws_callback_reasons string
  | OpWatchdog lws_env

fun step :: "(string \<Rightarrow> string list) \<Rightarrow> operation \<Rightarrow> WebSocket \<Rightarrow> failure + WebSocket" where
  "step Handle (OpSendAsync m) ws = Inr (SendAsync m ws)"
| "step Handle (OpSetHandler h) ws = SetIncomingMessageHandler h ws"
| "step Handle (OpEvent wsi reason input) ws =
     (case OnWebSocketEvent Handle wsi reason input ws of
        Inl e \<Rightarrow> Inl e
      | Inr (r, ws') \<Rightarrow> Inr ws')"
| "step Handle (OpWatchdog env) ws = RunWatchdog_iteration Handle env ws"

fun run :: "(string \<Rightarrow> string list) \<Rightarrow> operation list \<Rightarrow> WebSocket \<Rightarrow> failure + WebSocket" where
  "run Handle [] ws = Inr ws"
| "run Handle (x # xs) ws =
     (case step Handle x ws of Inl e \<Rightarrow> Inl e | Inr ws' \<Rightarrow> run Handle xs ws')"

section \<open>WebSocketClient\<close>

record WebSocketClient =
  web_socket :: "WebSocket option"

text \<open>
  \<^verbatim>\<open>SendSynchronousRequest\<close>. The schedule is that of \<open>Take\<close>: what the event thread
  offers to the queue during each wait of the caller. The call goes through
  \<^verbatim>\<open>web_socket_\<close> without a test, so a client without a session fails. Of what the
  event thread does during the wait the model follows the queue only: the other fields of
  the returned session are as \<open>SendAsync\<close> left them.
\<close>

definition SendSynchronousRequest :: "string \<Rightarrow> string list list \<Rightarrow> WebSocketClient
    \<Rightarrow> failure + string \<times> WebSocketClient" where
  "SendSynchronousRequest request sched c =
     (case web_socket c of
        None \<Rightarrow> Inl NullPointerDereference
      | Some ws \<Rightarrow>
          (if GetConnectState ws \<noteq> CONNECTED then Inr ([], c)
           else
             (let ws1 = SendAsync request ws
              in case Take sched (GetQueue ws1) of
                   None \<Rightarrow> Inl NeverReturns
                 | Some (response_message, q) \<Rightarrow>
                     Inr (response_message, c\<lparr>web_socket := Some (ws1\<lparr>queue := q\<rparr>)\<rparr>))))"

text \<open>
  The destructor of \<^verbatim>\<open>WebSocket\<close>; the result is the object as its last statement leaves
  it, before its memory is released.
\<close>

definition WebSocket_destroy :: "WebSocket \<Rightarrow> WebSocket" where
  "WebSocket_destroy ws =
     (let ws1 = emit (ClearMessages (enqueued_messages ws)) (ws\<lparr>enqueued_messages := []\<rparr>);
          ws2 = StopWatchDogThread ws1;
          ws3 = emit PthreadJoin ws2;
          ws4 = emit (StoreHandler None) (ws3\<lparr>incoming_message_handler := None\<rparr>);
          ws5 = emit (StoreHandle None) (ws4\<lparr>handle := None\<rparr>);
          ws6 = emit (StoreContext None) (ws5\<lparr>context := None\<rparr>);
          ws7 = emit MutexDestroy ws6
      in emit DeleteQueue ws7)"

text \<open>
  The loop \<^verbatim>\<open>while (web_socket_->HasEnqueuedMessages()) sleep(1);\<close> of
  \<^verbatim>\<open>CloseWebSocket\<close>. The schedule lists, for each sleep, the iterations the watchdog
  thread completes meanwhile; when messages are queued and the schedule is exhausted the
  loop never ends.
\<close>

fun CloseWebSocket_wait :: "(string \<Rightarrow> string list) \<Rightarrow> lws_env list list \<Rightarrow> WebSocket
    \<Rightarrow> failure + WebSocket" where
  "CloseWebSocket_wait Handle [] ws =
     (if HasEnqueuedMessages ws then Inl NeverReturns else Inr ws)"
| "CloseWebSocket_wait Handle (envs # sched) ws =
     (if HasEnqueuedMessages ws then
        (case RunWatchdog_loop Handle envs (emit (Sleep 1) ws) of
           Inl e \<Rightarrow> Inl e
         | Inr ws' \<Rightarrow> CloseWebSocket_wait Handle sched ws')
      else Inr ws)"

text \<open>
  \<^verbatim>\<open>CloseWebSocket\<close>: the result is the client and the trace of the session it deleted
  (empty when there was none).
\<close>

definition CloseWebSocket :: "(string \<Rightarrow> string list) \<Rightarrow> lws_env list list \<Rightarrow> WebSocketClient
    \<Rightarrow> failure + WebSocketClient \<times> effect list" where
  "CloseWebSocket Handle sched c =
     (case web_socket c of
        None \<Rightarrow> Inr (c, [])
      | Some ws \<Rightarrow>
          (case CloseWebSocket_wait Handle sched ws of
             Inl e \<Rightarrow> Inl e
           | Inr ws' \<Rightarrow> Inr (c\<lparr>web_socket := None\<rparr>, trace (WebSocket_destroy ws'))))"

section \<open>Reading a trace\<close>


text \<open>
  \<open>precedes a b es\<close>: \<open>a\<close> occurs in \<open>es\<close>, \<open>b\<close> occurs after it, and \<open>b\<close> does not
  occur before the first \<open>a\<close>.
\<close>

fun precedes :: "'a \<Rightarrow> 'a \<Rightarrow> 'a list \<Rightarrow> bool" where
  "precedes a b [] = False"
| "precedes a b (x # xs) =
     (if x = b then False else if x = a then b \<in> set xs else precedes a b xs)"

section \<open>A worked example\<close>

text \<open>
  The session of a client of \<^verbatim>\<open>localhost:8080\<close> after the watchdog thread has started
  and connected, the connection has been established, and one message has been sent before
  the first writable callback: it is connected, not writable, and holds the message in its
  queue. \<open>demo_session_reachable\<close> below derives it from the constructor.
\<close>

definition demo_session :: WebSocket where
  "demo_session =
     \<lparr>host = ''localhost'', port = 8080, protocol_name = ''jsonrpc'', path = ''/'',
      context = Some 7, handle = Some 1, connection_state = CONNECTED, writable = False,
      enqueued_messages = [''m''], incoming_message_handler = None,
      queue = \<lparr>ready_to_unlock = False, element = []\<rparr>,
      watchdog_thread_running = True,
      trace = [MutexInit, PthreadCreate, MutexLock, StoreWatchdogRunning True, MutexUnlock,
               USleep 50000, LwsCreateContext ''jsonrpc'', MutexLock, StoreContext (Some 7),
               LwsClientConnect (Some 7) ''localhost'' 8080 ''/'' ''localhost:8080'' ''localhost'',
               StoreConnectState CONNECTING, MutexUnlock, MutexLock,
               StoreConnectState CONNECTED, StoreHandle (Some 1), MutexUnlock,
               LwsCallbackOnWritable (Some 1), MutexLock, PushBack ''m'', MutexUnlock]\<rparr>"

definition demo_client :: WebSocketClient where
  "demo_client = \<lparr>web_socket = Some demo_session\<rparr>"

text \<open>A handler that offers every message it receives to the queue.\<close>

definition demo_handler :: "string \<Rightarrow> string list" where
  "demo_handler message = [message]"

text \<open>The library's answers for a connect attempt that succeeds, and for one service call
  that delivers a single writable callback.\<close>

definition demo_connect :: lws_env where
  "demo_connect =
     \<lparr>pending = [], protocol_name_read = ''jsonrpc'', created_context = Some 7,
      connect_result = Some 1\<rparr>"

definition demo_writable :: lws_env where
  "demo_writable =
     \<lparr>pending = [(Some 1, LWS_CALLBACK_CLIENT_WRITEABLE, [])],
      protocol_name_read = [], created_context = None, connect_result = None\<rparr>"

text \<open>The trace of the session that \<open>CloseWebSocket\<close> deletes in the example.\<close>

definition demo_teardown_trace :: "effect list" where
  "demo_teardown_trace =
     trace demo_session @
     [Sleep 1, LwsService (Some 7) 500, MutexLock, EraseBegin ''m'', LwsWrite (Some 1) ''m'',
      StoreWritable False, LwsCallbackOnWritable (Some 1), MutexUnlock,
      ClearMessages [], MutexLock, StoreWatchdogRunning False, MutexUnlock, PthreadJoin,
      StoreHandler None, StoreHandle None, StoreContext None, MutexDestroy, DeleteQueue]"

section \<open>Basic facts\<close>

lemmas session_defs = emit_def SetConnectState_def SetHandle_def SetWritable_def SetContext_def
  WriteMessageToWebSocket_def RemoveOldestEnqueuedMessage_def HasEnqueuedMessages_def
  EnqueueMessage_def GetIncomingMessageHandler_def GetConnectState_def GetContext_def
  GetHost_def GetPort_def GetServerUrlPath_def GetHostAddress_def GetProtocolName_def
  IsWatchDogThreadRunning_def GetQueue_def

lemmas demo_defs = demo_session_def demo_client_def demo_handler_def demo_connect_def
  demo_writable_def demo_teardown_trace_def

lemma decimal_8080: "decimal 8080 = ''8080''"
  by (simp add: decimal.simps digit_def)

lemma to_string_8080: "to_string 8080 = ''8080''"
  by (simp add: to_string_def decimal_8080)

lemma written_append: "written (xs @ ys) = written xs @ written ys"
  by (induction xs rule: written.induct) simp_all

lemma run_append:
  "run H (xs @ ys) ws = (case run H xs ws of Inl e \<Rightarrow> Inl e | Inr ws' \<Rightarrow> run H ys ws')"
  by (induction xs arbitrary: ws) (simp_all split: sum.splits)

lemma demo_session_reachable:
  "run demo_handler
     [OpWatchdog demo_connect, OpEvent (Some 1) LWS_CALLBACK_CLIENT_ESTABLISHED [],
      OpSendAsync ''m'']
     (SetWatchDogThreadStarted (WebSocket_new ''localhost'' 8080 ''jsonrpc'' ''/''))
   = Inr demo_session"
  by (simp add: demo_defs SetWatchDogThreadStarted_def WebSocket_new_def
      SynchronousBlockingQueue_new_def RunWatchdog_iteration_def OnWebSocketEvent_def
      SendAsync_def session_defs Let_def to_string_8080)

section \<open>The single-slot handoff\<close>

lemma offer_all_snoc: "offer_all (es @ [x]) q = Offer x q"
  by (simp add: offer_all_def Offer_def)

lemma offer_all_Nil: "offer_all [] q = q"
  by (simp add: offer_all_def)

lemma Take_wait_ready: "ready_to_unlock q \<Longrightarrow> Take_wait sched q = Some (element q, q)"
  by (cases sched) simp_all

lemma Take_wait_spurious:
  "\<not> ready_to_unlock q \<Longrightarrow> Take_wait (replicate n [] @ sched) q = Take_wait sched q"
  by (induction n) (simp_all add: offer_all_Nil)

lemma Take_offered: "Take (replicate n [] @ (es @ [x]) # sched) q = Some (x, Offer x q)"
proof -
  have nr: "\<not> ready_to_unlock (q\<lparr>ready_to_unlock := False\<rparr>)" by simp
  have "Take (replicate n [] @ (es @ [x]) # sched) q
      = Take_wait ((es @ [x]) # sched) (q\<lparr>ready_to_unlock := False\<rparr>)"
    unfolding Take_def using Take_wait_spurious [OF nr] by simp
  also have "\<dots> = Take_wait sched (Offer x (q\<lparr>ready_to_unlock := False\<rparr>))"
    by (simp add: offer_all_snoc)
  also have "\<dots> = Some (x, Offer x q)"
    by (simp add: Take_wait_ready Offer_def)
  finally show ?thesis .
qed

text \<open>
  Claim C2 says that \<open>Offer x\<close> followed by \<open>Take\<close> returns \<open>x\<close>, as the comments of
  the class promise (a queue of at most one element, which \<open>Offer\<close> makes available for
  consumption and \<open>Take\<close> waits for). The code does not do that: \<open>Take\<close> stores false
  into the flag before it waits, so on a new queue to which \<open>''x''\<close> has been offered a
  \<open>Take\<close> that no later offer reaches never returns, and a \<open>Take\<close> that a later
  \<open>Offer ''y''\<close> reaches returns \<open>''y''\<close>, not \<open>''x''\<close>.
\<close>

theorem Take_after_Offer_discards_value:
  "Take [] (Offer ''x'' SynchronousBlockingQueue_new) = None
   \<and> Take [[''y'']] (Offer ''x'' SynchronousBlockingQueue_new)
       = Some (''y'', \<lparr>ready_to_unlock = True, element = ''y''\<rparr>)"
  by (simp add: Take_def Offer_def SynchronousBlockingQueue_new_def offer_all_def)

text \<open>
  Claim C8: two calls of \<open>Offer\<close> with no \<open>Take\<close> between them leave the queue exactly as
  the second call alone would: the slot holds the second value, and a consumer that was
  waiting while both were made receives the second value.
\<close>

theorem Offer_twice_keeps_second:
  "Offer y (Offer x q) = Offer y q
   \<and> element (Offer y (Offer x q)) = y
   \<and> Take ([x, y] # sched) q = Some (y, Offer y q)"
  using Take_offered [of 0 "[x]" y sched q] by (simp add: Offer_def)

section \<open>The outbound queue and \<open>SendAsync\<close>\<close>

text \<open>
  Claim C10: on a session whose outbound queue is empty, \<open>HasEnqueuedMessages\<close> is false
  and \<open>RemoveOldestEnqueuedMessage\<close> returns the empty string and the session unchanged,
  trace included.
\<close>

theorem RemoveOldestEnqueuedMessage_empty:
  "enqueued_messages ws = [] \<Longrightarrow>
   \<not> HasEnqueuedMessages ws \<and> RemoveOldestEnqueuedMessage ws = ([], ws)"
  by (simp add: RemoveOldestEnqueuedMessage_def HasEnqueuedMessages_def)

theorem RemoveOldestEnqueuedMessage_empty_witness:
  "enqueued_messages (WebSocket_new ''localhost'' 8080 ''jsonrpc'' ''/'') = []
   \<and> \<not> HasEnqueuedMessages (WebSocket_new ''localhost'' 8080 ''jsonrpc'' ''/'')
   \<and> RemoveOldestEnqueuedMessage (WebSocket_new ''localhost'' 8080 ''jsonrpc'' ''/'')
       = ([], WebSocket_new ''localhost'' 8080 ''jsonrpc'' ''/'')"
  using RemoveOldestEnqueuedMessage_empty [of "WebSocket_new ''localhost'' 8080 ''jsonrpc'' ''/''"]
  by (simp add: WebSocket_new_def)

text \<open>
  Claim C3: \<open>SendAsync\<close> on a writable session calls \<^verbatim>\<open>lws_write\<close> with the message at
  once, under the mutex, and clears \<open>writable\<close>, leaving the queue as it was; on a session
  that is not writable it appends the message at the tail of the queue and writes nothing.
\<close>

theorem SendAsync_spec:
  "(writable ws \<longrightarrow>
      SendAsync message ws =
        ws\<lparr>writable := False,
           trace := trace ws @ [MutexLock, LwsWrite (handle ws) message, StoreWritable False,
                                LwsCallbackOnWritable (handle ws), MutexUnlock]\<rparr>
      \<and> written (trace (SendAsync message ws)) = written (trace ws) @ [message]
      \<and> enqueued_messages (SendAsync message ws) = enqueued_messages ws
      \<and> \<not> writable (SendAsync message ws))
   \<and> (\<not> writable ws \<longrightarrow>
      SendAsync message ws =
        ws\<lparr>enqueued_messages := enqueued_messages ws @ [message],
           trace := trace ws @ [MutexLock, PushBack message, MutexUnlock]\<rparr>
      \<and> written (trace (SendAsync message ws)) = written (trace ws)
      \<and> enqueued_messages (SendAsync message ws) = enqueued_messages ws @ [message]
      \<and> \<not> writable (SendAsync message ws))"
  by (simp add: SendAsync_def WriteMessageToWebSocket_def EnqueueMessage_def emit_def
      written_append Let_def)

theorem SendAsync_spec_witness:
  "\<not> writable demo_session
   \<and> enqueued_messages (SendAsync ''ping'' demo_session) = [''m'', ''ping'']
   \<and> written (trace (SendAsync ''ping'' demo_session)) = []
   \<and> writable (demo_session\<lparr>enqueued_messages := [], writable := True\<rparr>)
   \<and> written (trace (SendAsync ''ping'' (demo_session\<lparr>enqueued_messages := [], writable := True\<rparr>)))
       = [''ping'']
   \<and> \<not> writable (SendAsync ''ping'' (demo_session\<lparr>enqueued_messages := [], writable := True\<rparr>))"
  using SendAsync_spec [of demo_session "''ping''"]
    SendAsync_spec [of "demo_session\<lparr>enqueued_messages := [], writable := True\<rparr>" "''ping''"]
  by (simp add: demo_session_def)


lemma writable_event_dequeues:
  "enqueued_messages ws = m # rest \<Longrightarrow>
   OnWebSocketEvent H (Some w) LWS_CALLBACK_CLIENT_WRITEABLE inp ws =
     Inr (0, ws\<lparr>writable := False, enqueued_messages := rest,
               trace := trace ws @ [MutexLock, EraseBegin m, LwsWrite (handle ws) m,
                 StoreWritable False, LwsCallbackOnWritable (handle ws), MutexUnlock]\<rparr>)"
  by (simp add: OnWebSocketEvent_def session_defs Let_def)

lemma drain_in_order:
  "enqueued_messages ws = q \<Longrightarrow>
   \<exists>ws'. run H (replicate (length q) (OpEvent (Some w) LWS_CALLBACK_CLIENT_WRITEABLE inp)) ws = Inr ws'
      \<and> written (trace ws') = written (trace ws) @ q \<and> enqueued_messages ws' = []"
proof (induction q arbitrary: ws)
  case Nil
  then show ?case by simp
next
  case (Cons m rest)
  let ?ws1 = "ws\<lparr>writable := False, enqueued_messages := rest,
               trace := trace ws @ [MutexLock, EraseBegin m, LwsWrite (handle ws) m,
                 StoreWritable False, LwsCallbackOnWritable (handle ws), MutexUnlock]\<rparr>"
  have "enqueued_messages ?ws1 = rest" by simp
  from Cons.IH [OF this] obtain ws' where
    r: "run H (replicate (length rest) (OpEvent (Some w) LWS_CALLBACK_CLIENT_WRITEABLE inp)) ?ws1 = Inr ws'"
    and w: "written (trace ws') = written (trace ?ws1) @ rest"
    and e: "enqueued_messages ws' = []" by blast
  have "written (trace ?ws1) = written (trace ws) @ [m]"
    by (simp add: written_append)
  with r w e show ?case
    using writable_event_dequeues [OF Cons.prems, of H w inp] by simp
qed

lemma sends_enqueue:
  "\<not> writable ws \<Longrightarrow>
   \<exists>ws'. run H (map OpSendAsync ms) ws = Inr ws'
      \<and> enqueued_messages ws' = enqueued_messages ws @ ms
      \<and> written (trace ws') = written (trace ws) \<and> \<not> writable ws'"
proof (induction ms arbitrary: ws)
  case Nil
  then show ?case by simp
next
  case (Cons m ms)
  let ?ws1 = "SendAsync m ws"
  have s: "\<not> writable ?ws1" "enqueued_messages ?ws1 = enqueued_messages ws @ [m]"
    "written (trace ?ws1) = written (trace ws)"
    using Cons.prems by (simp_all add: SendAsync_def session_defs written_append)
  from Cons.IH [OF s(1)] s show ?case by auto
qed

text \<open>
  Claim C4: \<open>EnqueueMessage\<close> appends at the tail; \<open>RemoveOldestEnqueuedMessage\<close> returns
  the head and leaves the rest; and when messages \<open>ms\<close> are sent on a session that is not
  writable and then one writable callback is dispatched for each queued message, the calls
  of \<^verbatim>\<open>lws_write\<close> carry the messages queued before, then \<open>ms\<close>, in that order, and the
  queue ends empty.
\<close>

theorem outbound_queue_fifo:
  "enqueued_messages (EnqueueMessage m ws) = enqueued_messages ws @ [m]
   \<and> (enqueued_messages ws = m' # rest \<longrightarrow>
        fst (RemoveOldestEnqueuedMessage ws) = m'
        \<and> enqueued_messages (snd (RemoveOldestEnqueuedMessage ws)) = rest)
   \<and> (\<not> writable ws \<longrightarrow>
        (\<exists>ws'. run Handle (map OpSendAsync ms @
                   replicate (length (enqueued_messages ws @ ms))
                     (OpEvent (Some wsi) LWS_CALLBACK_CLIENT_WRITEABLE input)) ws = Inr ws'
           \<and> written (trace ws') = written (trace ws) @ enqueued_messages ws @ ms
           \<and> enqueued_messages ws' = []))"
proof (intro conjI impI)
  show "enqueued_messages (EnqueueMessage m ws) = enqueued_messages ws @ [m]"
    by (simp add: session_defs)
next
  assume "enqueued_messages ws = m' # rest"
  then show "fst (RemoveOldestEnqueuedMessage ws) = m'"
    and "enqueued_messages (snd (RemoveOldestEnqueuedMessage ws)) = rest"
    by (simp_all add: session_defs)
next
  assume nw: "\<not> writable ws"
  from sends_enqueue [OF nw, of Handle ms] obtain ws1 where
    a: "run Handle (map OpSendAsync ms) ws = Inr ws1"
    and b: "enqueued_messages ws1 = enqueued_messages ws @ ms"
    and c: "written (trace ws1) = written (trace ws)" by blast
  from drain_in_order [OF b, of Handle wsi input] obtain ws' where
    d: "run Handle (replicate (length (enqueued_messages ws @ ms))
          (OpEvent (Some wsi) LWS_CALLBACK_CLIENT_WRITEABLE input)) ws1 = Inr ws'"
    and e: "written (trace ws') = written (trace ws1) @ enqueued_messages ws @ ms"
    and f: "enqueued_messages ws' = []" by blast
  show "\<exists>ws'. run Handle (map OpSendAsync ms @
                   replicate (length (enqueued_messages ws @ ms))
                     (OpEvent (Some wsi) LWS_CALLBACK_CLIENT_WRITEABLE input)) ws = Inr ws'
           \<and> written (trace ws') = written (trace ws) @ enqueued_messages ws @ ms
           \<and> enqueued_messages ws' = []"
    using a c d e f by (simp add: run_append)
qed

theorem outbound_queue_fifo_witness:
  "\<not> writable (WebSocket_new ''localhost'' 8080 ''jsonrpc'' ''/'')
   \<and> (\<exists>ws'. run demo_handler
               [OpSendAsync ''a'', OpSendAsync ''b'', OpSendAsync ''c'',
                OpEvent (Some 1) LWS_CALLBACK_CLIENT_WRITEABLE [],
                OpEvent (Some 1) LWS_CALLBACK_CLIENT_WRITEABLE [],
                OpEvent (Some 1) LWS_CALLBACK_CLIENT_WRITEABLE []]
               (WebSocket_new ''localhost'' 8080 ''jsonrpc'' ''/'') = Inr ws'
           \<and> written (trace ws') = [''a'', ''b'', ''c''] \<and> enqueued_messages ws' = [])
   \<and> enqueued_messages demo_session = [''m'']
   \<and> fst (RemoveOldestEnqueuedMessage demo_session) = ''m''
   \<and> enqueued_messages (snd (RemoveOldestEnqueuedMessage demo_session)) = []
   \<and> enqueued_messages (EnqueueMessage ''n'' demo_session) = [''m'', ''n'']"
  using outbound_queue_fifo [of "''a''" "WebSocket_new ''localhost'' 8080 ''jsonrpc'' ''/''"
      "''a''" "[]" demo_handler "[''a'', ''b'', ''c'']" 1 "[]"]
    outbound_queue_fifo [of "''n''" demo_session "''m''" "[]" demo_handler "[]" 1 "[]"]
  by (simp add: WebSocket_new_def demo_session_def numeral_3_eq_3)

section \<open>The watchdog's connect step\<close>



section \<open>Invariants of the session\<close>

text \<open>
  A property that every callback of the dispatcher preserves is preserved by
  \<^verbatim>\<open>lws_service\<close>; with the connect step and the service call it is preserved by an
  iteration of the watchdog; with \<open>SendAsync\<close> and \<open>SetIncomingMessageHandler\<close> by
  every sequence of operations.
\<close>

lemma lws_service_preserves:
  assumes ev: "\<And>wsi r inp ws k ws'.
      OnWebSocketEvent H wsi r inp ws = Inr (k, ws') \<Longrightarrow> P ws \<Longrightarrow> P ws'"
  shows "lws_service H evs ws = Inr ws' \<Longrightarrow> P ws \<Longrightarrow> P ws'"
proof (induction evs arbitrary: ws)
  case Nil
  then show ?case by simp
next
  case (Cons x evs)
  obtain wsi r inp where x: "x = (wsi, r, inp)" by (cases x) auto
  from Cons.prems(1) x obtain k ws1 where
    a: "OnWebSocketEvent H wsi r inp ws = Inr (k, ws1)" and b: "lws_service H evs ws1 = Inr ws'"
    by (auto split: sum.splits)
  from ev [OF a Cons.prems(2)] have "P ws1" .
  from Cons.IH [OF b this] show ?case .
qed

lemma RunWatchdog_iteration_preserves:
  assumes ev: "\<And>wsi r inp ws k ws'.
      OnWebSocketEvent H wsi r inp ws = Inr (k, ws') \<Longrightarrow> P ws \<Longrightarrow> P ws'"
    and svc: "\<And>ws c. P ws \<Longrightarrow> P (emit (LwsService c 500) ws)"
    and con: "\<And>ws ws' env. connection_state ws = DISCONNECTED \<Longrightarrow>
                RunWatchdog_iteration H env ws = Inr ws' \<Longrightarrow> P ws \<Longrightarrow> P ws'"
  shows "RunWatchdog_iteration H env ws = Inr ws' \<Longrightarrow> P ws \<Longrightarrow> P ws'"
proof (cases "connection_state ws = DISCONNECTED")
  case True
  assume "RunWatchdog_iteration H env ws = Inr ws'" "P ws"
  with con [OF True] show ?thesis by blast
next
  case False
  assume r: "RunWatchdog_iteration H env ws = Inr ws'" and p: "P ws"
  from r False have "lws_service H (pending env) (emit (LwsService (context ws) 500) ws) = Inr ws'"
    by (simp add: RunWatchdog_iteration_def GetConnectState_def GetContext_def)
  then show ?thesis
    by (rule lws_service_preserves [where P = P, rotated]) (rule svc [OF p], erule ev, assumption)
qed

lemma run_preserves:
  assumes ev: "\<And>wsi r inp ws k ws'.
      OnWebSocketEvent H wsi r inp ws = Inr (k, ws') \<Longrightarrow> P ws \<Longrightarrow> P ws'"
    and svc: "\<And>ws c. P ws \<Longrightarrow> P (emit (LwsService c 500) ws)"
    and con: "\<And>ws ws' env. connection_state ws = DISCONNECTED \<Longrightarrow>
                RunWatchdog_iteration H env ws = Inr ws' \<Longrightarrow> P ws \<Longrightarrow> P ws'"
    and snd: "\<And>ws m. P ws \<Longrightarrow> P (SendAsync m ws)"
    and hnd: "\<And>ws h ws'. SetIncomingMessageHandler h ws = Inr ws' \<Longrightarrow> P ws \<Longrightarrow> P ws'"
  shows "run H xs ws = Inr ws' \<Longrightarrow> P ws \<Longrightarrow> P ws'"
proof (induction xs arbitrary: ws)
  case Nil
  then show ?case by simp
next
  case (Cons x xs)
  from Cons.prems(1) obtain ws1 where
    a: "step H x ws = Inr ws1" and b: "run H xs ws1 = Inr ws'"
    by (auto split: sum.splits)
  have "P ws1"
  proof (cases x)
    case (OpSendAsync m)
    with a snd [OF Cons.prems(2), of m] show ?thesis by simp
  next
    case (OpSetHandler h)
    with a have "SetIncomingMessageHandler h ws = Inr ws1" by simp
    from hnd [OF this Cons.prems(2)] show ?thesis .
  next
    case (OpEvent wsi r inp)
    with a obtain k where "OnWebSocketEvent H wsi r inp ws = Inr (k, ws1)"
      by (auto split: sum.splits)
    from ev [OF this Cons.prems(2)] show ?thesis .
  next
    case (OpWatchdog env)
    with a have "RunWatchdog_iteration H env ws = Inr ws1" by simp
    then show ?thesis
    proof (rule RunWatchdog_iteration_preserves [where P = P, rotated 3])
      show "P ws" by (rule Cons.prems(2))
    qed (erule ev, assumption, erule svc, erule con, assumption+)
  qed
  from Cons.IH [OF b this] show ?case .
qed

lemma OnWebSocketEvent_writable_queue:
  "OnWebSocketEvent H wsi r inp ws = Inr (k, ws') \<Longrightarrow>
   (writable ws \<longrightarrow> enqueued_messages ws = []) \<Longrightarrow>
   (writable ws' \<longrightarrow> enqueued_messages ws' = [])"
  by (auto simp add: OnWebSocketEvent_def session_defs Let_def
      split: if_splits lws_callback_reasons.splits option.splits list.splits)

lemma OnWebSocketEvent_handle:
  "OnWebSocketEvent H wsi r inp ws = Inr (k, ws') \<Longrightarrow>
   (handle ws \<noteq> None \<longrightarrow> StoreConnectState CONNECTED \<in> set (trace ws))
     \<and> (connection_state ws = CONNECTED \<longrightarrow> handle ws \<noteq> None) \<Longrightarrow>
   (handle ws' \<noteq> None \<longrightarrow> StoreConnectState CONNECTED \<in> set (trace ws'))
     \<and> (connection_state ws' = CONNECTED \<longrightarrow> handle ws' \<noteq> None)"
  by (auto simp add: OnWebSocketEvent_def session_defs Let_def
      split: if_splits lws_callback_reasons.splits option.splits list.splits)

text \<open>
  Claim C5, as stated, fails: after the callbacks Established, Writable (on an empty queue)
  and Closed the session is writable and Disconnected. No branch of the dispatcher clears
  \<open>writable\<close> when the connection is lost.
\<close>

theorem writable_while_disconnected_counterexample:
  "run demo_handler
     [OpEvent (Some 1) LWS_CALLBACK_CLIENT_ESTABLISHED [],
      OpEvent (Some 1) LWS_CALLBACK_CLIENT_WRITEABLE [],
      OpEvent (Some 1) LWS_CALLBACK_CLOSED []]
     (WebSocket_new ''localhost'' 8080 ''jsonrpc'' ''/'')
   = Inr ((WebSocket_new ''localhost'' 8080 ''jsonrpc'' ''/'')
       \<lparr>handle := Some 1, connection_state := DISCONNECTED, writable := True,
        trace := [MutexInit, PthreadCreate,
                  MutexLock, StoreConnectState CONNECTED, StoreHandle (Some 1), MutexUnlock,
                  LwsCallbackOnWritable (Some 1),
                  MutexLock, StoreWritable True, MutexUnlock,
                  MutexLock, StoreConnectState DISCONNECTED, MutexUnlock]\<rparr>)"
  by (simp add: OnWebSocketEvent_def session_defs WebSocket_new_def Let_def)

text \<open>
  Claim C5, amended: in every state reached from the constructed session by a sequence of
  \<open>SendAsync\<close> calls, dispatcher callbacks and watchdog iterations, \<open>writable\<close> is true
  only when the outbound queue is empty. (The connection state is not constrained.)
\<close>

theorem writable_implies_queue_empty:
  "run Handle ops (WebSocket_new h p protocol pa) = Inr ws \<Longrightarrow>
   writable ws \<Longrightarrow> enqueued_messages ws = []"
proof -
  assume r: "run Handle ops (WebSocket_new h p protocol pa) = Inr ws" and w: "writable ws"
  let ?P = "\<lambda>ws. writable ws \<longrightarrow> enqueued_messages ws = []"
  have "?P ws"
  proof (rule run_preserves [where P = ?P, rotated 5, OF r])
    show "?P (WebSocket_new h p protocol pa)" by (simp add: WebSocket_new_def)
  qed (auto simp add: RunWatchdog_iteration_def SendAsync_def SetIncomingMessageHandler_def
        session_defs Let_def split: if_splits dest: OnWebSocketEvent_writable_queue)
  with w show ?thesis by simp
qed

theorem writable_implies_queue_empty_witness:
  "run demo_handler
     [OpSendAsync ''a'',
      OpEvent (Some 1) LWS_CALLBACK_CLIENT_ESTABLISHED [],
      OpEvent (Some 1) LWS_CALLBACK_CLIENT_WRITEABLE [],
      OpEvent (Some 1) LWS_CALLBACK_CLIENT_WRITEABLE []]
     (WebSocket_new ''localhost'' 8080 ''jsonrpc'' ''/'')
   = Inr ((WebSocket_new ''localhost'' 8080 ''jsonrpc'' ''/'')
       \<lparr>handle := Some 1, connection_state := CONNECTED, writable := True,
        trace := [MutexInit, PthreadCreate,
                  MutexLock, PushBack ''a'', MutexUnlock,
                  MutexLock, StoreConnectState CONNECTED, StoreHandle (Some 1), MutexUnlock,
                  LwsCallbackOnWritable (Some 1),
                  MutexLock, EraseBegin ''a'', LwsWrite (Some 1) ''a'', StoreWritable False,
                  LwsCallbackOnWritable (Some 1), MutexUnlock,
                  MutexLock, StoreWritable True, MutexUnlock]\<rparr>)
   \<and> enqueued_messages ((WebSocket_new ''localhost'' 8080 ''jsonrpc'' ''/'')
       \<lparr>handle := Some 1, connection_state := CONNECTED, writable := True,
        trace := [MutexInit, PthreadCreate,
                  MutexLock, PushBack ''a'', MutexUnlock,
                  MutexLock, StoreConnectState CONNECTED, StoreHandle (Some 1), MutexUnlock,
                  LwsCallbackOnWritable (Some 1),
                  MutexLock, EraseBegin ''a'', LwsWrite (Some 1) ''a'', StoreWritable False,
                  LwsCallbackOnWritable (Some 1), MutexUnlock,
                  MutexLock, StoreWritable True, MutexUnlock]\<rparr>) = []"
proof -
  let ?S = "(WebSocket_new ''localhost'' 8080 ''jsonrpc'' ''/'')
       \<lparr>handle := Some 1, connection_state := CONNECTED, writable := True,
        trace := [MutexInit, PthreadCreate,
                  MutexLock, PushBack ''a'', MutexUnlock,
                  MutexLock, StoreConnectState CONNECTED, StoreHandle (Some 1), MutexUnlock,
                  LwsCallbackOnWritable (Some 1),
                  MutexLock, EraseBegin ''a'', LwsWrite (Some 1) ''a'', StoreWritable False,
                  LwsCallbackOnWritable (Some 1), MutexUnlock,
                  MutexLock, StoreWritable True, MutexUnlock]\<rparr>"
  have r: "run demo_handler
     [OpSendAsync ''a'',
      OpEvent (Some 1) LWS_CALLBACK_CLIENT_ESTABLISHED [],
      OpEvent (Some 1) LWS_CALLBACK_CLIENT_WRITEABLE [],
      OpEvent (Some 1) LWS_CALLBACK_CLIENT_WRITEABLE []]
     (WebSocket_new ''localhost'' 8080 ''jsonrpc'' ''/'') = Inr ?S"
    by (simp add: OnWebSocketEvent_def SendAsync_def session_defs WebSocket_new_def Let_def)
  have w: "writable ?S" by simp
  from writable_implies_queue_empty [OF r w] r show ?thesis by blast
qed

text \<open>
  Claim C6, as stated, fails: after the callbacks Established and Closed the state is
  Disconnected and the handle is still the one the Established callback stored. The
  branches for ConnectionError and Closed store the state only.
\<close>

theorem handle_kept_after_close_counterexample:
  "run demo_handler
     [OpEvent (Some 1) LWS_CALLBACK_CLIENT_ESTABLISHED [],
      OpEvent (Some 1) LWS_CALLBACK_CLOSED []]
     (WebSocket_new ''localhost'' 8080 ''jsonrpc'' ''/'')
   = Inr ((WebSocket_new ''localhost'' 8080 ''jsonrpc'' ''/'')
       \<lparr>handle := Some 1, connection_state := DISCONNECTED,
        trace := [MutexInit, PthreadCreate,
                  MutexLock, StoreConnectState CONNECTED, StoreHandle (Some 1), MutexUnlock,
                  LwsCallbackOnWritable (Some 1),
                  MutexLock, StoreConnectState DISCONNECTED, MutexUnlock]\<rparr>)"
  by (simp add: OnWebSocketEvent_def session_defs WebSocket_new_def Let_def)

text \<open>
  Claim C6, amended: in every state reached from the constructed session by a sequence of
  \<open>SendAsync\<close> calls, dispatcher callbacks and watchdog iterations, the handle is non-null
  only if the state Connected has been stored at some point before (an Established callback
  has run), and whenever the state is Connected the handle is non-null.
\<close>

theorem handle_nonnull_only_after_established:
  "run Handle ops (WebSocket_new h p protocol pa) = Inr ws \<Longrightarrow>
   (handle ws \<noteq> None \<longrightarrow> StoreConnectState CONNECTED \<in> set (trace ws))
   \<and> (connection_state ws = CONNECTED \<longrightarrow> handle ws \<noteq> None)"
proof -
  assume r: "run Handle ops (WebSocket_new h p protocol pa) = Inr ws"
  let ?P = "\<lambda>ws. (handle ws \<noteq> None \<longrightarrow> StoreConnectState CONNECTED \<in> set (trace ws))
     \<and> (connection_state ws = CONNECTED \<longrightarrow> handle ws \<noteq> None)"
  show ?thesis
  proof (rule run_preserves [where P = ?P, rotated 5, OF r])
    show "?P (WebSocket_new h p protocol pa)" by (simp add: WebSocket_new_def)
  next
    fix wsi r inp ws k ws'
    assume "OnWebSocketEvent Handle wsi r inp ws = Inr (k, ws')" "?P ws"
    then show "?P ws'" by (rule OnWebSocketEvent_handle)
  qed (auto simp add: RunWatchdog_iteration_def SendAsync_def SetIncomingMessageHandler_def
        session_defs Let_def split: if_splits)
qed

theorem handle_nonnull_only_after_established_witness:
  "run demo_handler
     [OpWatchdog demo_connect, OpEvent (Some 1) LWS_CALLBACK_CLIENT_ESTABLISHED []]
     (WebSocket_new ''localhost'' 8080 ''jsonrpc'' ''/'')
   = Inr ((WebSocket_new ''localhost'' 8080 ''jsonrpc'' ''/'')
       \<lparr>context := Some 7, handle := Some 1, connection_state := CONNECTED,
        trace := [MutexInit, PthreadCreate, USleep 50000, LwsCreateContext ''jsonrpc'',
                  MutexLock, StoreContext (Some 7),
                  LwsClientConnect (Some 7) ''localhost'' 8080 ''/'' ''localhost:8080''
                    ''localhost'',
                  StoreConnectState CONNECTING, MutexUnlock,
                  MutexLock, StoreConnectState CONNECTED, StoreHandle (Some 1), MutexUnlock,
                  LwsCallbackOnWritable (Some 1)]\<rparr>)
   \<and> StoreConnectState CONNECTED \<in> set
        [MutexInit, PthreadCreate, USleep 50000, LwsCreateContext ''jsonrpc'',
         MutexLock, StoreContext (Some 7),
         LwsClientConnect (Some 7) ''localhost'' 8080 ''/'' ''localhost:8080'' ''localhost'',
         StoreConnectState CONNECTING, MutexUnlock,
         MutexLock, StoreConnectState CONNECTED, StoreHandle (Some 1), MutexUnlock,
         LwsCallbackOnWritable (Some 1)]"
proof -
  let ?S = "(WebSocket_new ''localhost'' 8080 ''jsonrpc'' ''/'')
       \<lparr>context := Some 7, handle := Some 1, connection_state := CONNECTED,
        trace := [MutexInit, PthreadCreate, USleep 50000, LwsCreateContext ''jsonrpc'',
                  MutexLock, StoreContext (Some 7),
                  LwsClientConnect (Some 7) ''localhost'' 8080 ''/'' ''localhost:8080''
                    ''localhost'',
                  StoreConnectState CONNECTING, MutexUnlock,
                  MutexLock, StoreConnectState CONNECTED, StoreHandle (Some 1), MutexUnlock,
                  LwsCallbackOnWritable (Some 1)]\<rparr>"
  have r: "run demo_handler
     [OpWatchdog demo_connect, OpEvent (Some 1) LWS_CALLBACK_CLIENT_ESTABLISHED []]
     (WebSocket_new ''localhost'' 8080 ''jsonrpc'' ''/'') = Inr ?S"
    by (simp add: demo_connect_def WebSocket_new_def RunWatchdog_iteration_def
        OnWebSocketEvent_def session_defs Let_def to_string_8080)
  have h: "handle ?S \<noteq> None" by simp
  from handle_nonnull_only_after_established [OF r] h
  have "StoreConnectState CONNECTED \<in> set (trace ?S)" by blast
  with r show ?thesis by simp
qed


section \<open>Teardown\<close>

lemma RunWatchdog_loop_preserves:
  assumes ev: "\<And>wsi r inp ws k ws'.
      OnWebSocketEvent H wsi r inp ws = Inr (k, ws') \<Longrightarrow> P ws \<Longrightarrow> P ws'"
    and svc: "\<And>ws c. P ws \<Longrightarrow> P (emit (LwsService c 500) ws)"
    and con: "\<And>ws ws' env. connection_state ws = DISCONNECTED \<Longrightarrow>
                RunWatchdog_iteration H env ws = Inr ws' \<Longrightarrow> P ws \<Longrightarrow> P ws'"
  shows "RunWatchdog_loop H envs ws = Inr ws' \<Longrightarrow> P ws \<Longrightarrow> P ws'"
proof (induction envs arbitrary: ws)
  case Nil
  then show ?case by simp
next
  case (Cons env envs)
  show ?case
  proof (cases "IsWatchDogThreadRunning ws")
    case False
    with Cons.prems show ?thesis by simp
  next
    case True
    with Cons.prems(1) obtain ws1 where
      a: "RunWatchdog_iteration H env ws = Inr ws1" and b: "RunWatchdog_loop H envs ws1 = Inr ws'"
      by (auto split: sum.splits)
    from a have "P ws1"
    proof (rule RunWatchdog_iteration_preserves [where P = P, rotated 3])
      show "P ws" by (rule Cons.prems(2))
    qed (erule ev, assumption, erule svc, erule con, assumption+)
    from Cons.IH [OF b this] show ?thesis .
  qed
qed

lemma CloseWebSocket_wait_preserves:
  assumes ev: "\<And>wsi r inp ws k ws'.
      OnWebSocketEvent H wsi r inp ws = Inr (k, ws') \<Longrightarrow> P ws \<Longrightarrow> P ws'"
    and svc: "\<And>ws c. P ws \<Longrightarrow> P (emit (LwsService c 500) ws)"
    and con: "\<And>ws ws' env. connection_state ws = DISCONNECTED \<Longrightarrow>
                RunWatchdog_iteration H env ws = Inr ws' \<Longrightarrow> P ws \<Longrightarrow> P ws'"
    and slp: "\<And>ws. P ws \<Longrightarrow> P (emit (Sleep 1) ws)"
  shows "CloseWebSocket_wait H sched ws = Inr ws' \<Longrightarrow> P ws \<Longrightarrow> P ws'"
proof (induction sched arbitrary: ws)
  case Nil
  then show ?case by (simp split: if_splits)
next
  case (Cons envs sched)
  show ?case
  proof (cases "HasEnqueuedMessages ws")
    case False
    with Cons.prems show ?thesis by simp
  next
    case True
    with Cons.prems(1) obtain ws1 where
      a: "RunWatchdog_loop H envs (emit (Sleep 1) ws) = Inr ws1"
      and b: "CloseWebSocket_wait H sched ws1 = Inr ws'"
      by (auto split: sum.splits)
    from a have "P ws1"
    proof (rule RunWatchdog_loop_preserves [where P = P, rotated 3])
      show "P (emit (Sleep 1) ws)" by (rule slp [OF Cons.prems(2)])
    qed (erule ev, assumption, erule svc, erule con, assumption+)
    from Cons.IH [OF b this] show ?thesis .
  qed
qed

lemma CloseWebSocket_wait_drained:
  "CloseWebSocket_wait H sched ws = Inr ws' \<Longrightarrow> enqueued_messages ws' = []"
  by (induction sched arbitrary: ws)
    (auto simp add: HasEnqueuedMessages_def split: if_splits sum.splits)

lemma CloseWebSocket_wait_blocked:
  "HasEnqueuedMessages ws \<Longrightarrow> CloseWebSocket_wait H [] ws = Inl NeverReturns"
  by simp

lemma OnWebSocketEvent_quiet:
  "OnWebSocketEvent H wsi r inp ws = Inr (k, ws') \<Longrightarrow>
   \<exists>t. trace ws' = trace ws @ t \<and> StoreWatchdogRunning False \<notin> set t
      \<and> (\<forall>ms. ClearMessages ms \<notin> set t)"
  by (auto simp add: OnWebSocketEvent_def session_defs Let_def
      split: if_splits lws_callback_reasons.splits option.splits list.splits)

lemma connect_quiet:
  "connection_state ws = DISCONNECTED \<Longrightarrow> RunWatchdog_iteration H env ws = Inr ws' \<Longrightarrow>
   \<exists>t. trace ws' = trace ws @ t \<and> StoreWatchdogRunning False \<notin> set t
      \<and> (\<forall>ms. ClearMessages ms \<notin> set t)"
  by (auto simp add: RunWatchdog_iteration_def session_defs Let_def)

lemma CloseWebSocket_wait_trace:
  assumes w: "CloseWebSocket_wait H sched ws = Inr ws'"
  shows "\<exists>t. trace ws' = trace ws @ t \<and> StoreWatchdogRunning False \<notin> set t
      \<and> (\<forall>ms. ClearMessages ms \<notin> set t)
      \<and> (HasEnqueuedMessages ws \<longrightarrow> (\<exists>t'. t = Sleep 1 # t'))
      \<and> (\<not> HasEnqueuedMessages ws \<longrightarrow> t = [])"
proof (cases "HasEnqueuedMessages ws")
  case False
  with w have "ws' = ws" by (cases sched) simp_all
  with False show ?thesis by simp
next
  case True
  with w obtain envs rest where s: "sched = envs # rest" by (cases sched) simp_all
  with w True obtain ws1 where
    a: "RunWatchdog_loop H envs (emit (Sleep 1) ws) = Inr ws1"
    and b: "CloseWebSocket_wait H rest ws1 = Inr ws'"
    by (auto split: sum.splits)
  let ?P = "\<lambda>x. \<exists>t. trace x = trace ws @ Sleep 1 # t \<and> StoreWatchdogRunning False \<notin> set t
      \<and> (\<forall>ms. ClearMessages ms \<notin> set t)"
  have ev: "\<And>wsi r inp x k x'. OnWebSocketEvent H wsi r inp x = Inr (k, x') \<Longrightarrow> ?P x \<Longrightarrow> ?P x'"
    by (drule OnWebSocketEvent_quiet) auto
  have con: "\<And>x x' env. connection_state x = DISCONNECTED \<Longrightarrow>
                RunWatchdog_iteration H env x = Inr x' \<Longrightarrow> ?P x \<Longrightarrow> ?P x'"
    by (drule connect_quiet, assumption) auto
  have svc: "\<And>x c. ?P x \<Longrightarrow> ?P (emit (LwsService c 500) x)"
    by (auto simp add: emit_def)
  have slp: "\<And>x. ?P x \<Longrightarrow> ?P (emit (Sleep 1) x)"
    by (auto simp add: emit_def)
  have p0: "?P (emit (Sleep 1) ws)" by (simp add: emit_def)
  from a have p1: "?P ws1"
    by (rule RunWatchdog_loop_preserves [where P = ?P, rotated 3])
      (rule p0, erule ev, assumption, erule svc, erule con, assumption+)
  from b have "?P ws'"
    by (rule CloseWebSocket_wait_preserves [where P = ?P, rotated 4])
      (rule p1, erule ev, assumption, erule svc, erule con, assumption+, erule slp)
  with True show ?thesis by auto
qed

lemma WebSocket_destroy_trace:
  "trace (WebSocket_destroy ws) = trace ws @
     [ClearMessages (enqueued_messages ws), MutexLock, StoreWatchdogRunning False, MutexUnlock,
      PthreadJoin, StoreHandler None, StoreHandle None, StoreContext None, MutexDestroy,
      DeleteQueue]"
  by (simp add: WebSocket_destroy_def StopWatchDogThread_def emit_def Let_def)

lemma demo_teardown:
  "CloseWebSocket demo_handler [[demo_writable]] demo_client
     = Inr (\<lparr>web_socket = None\<rparr>, demo_teardown_trace)"
  by (simp add: CloseWebSocket_def WebSocket_destroy_trace demo_defs
      RunWatchdog_iteration_def OnWebSocketEvent_def session_defs Let_def)

text \<open>
  Claim C9, as stated, fails on the order of the steps: in the teardown of the example
  client, whose queue holds one message that the watchdog thread writes during the first
  sleep, the sleep of the polling loop comes before the store of false into the running
  flag, not after it.
\<close>

theorem CloseWebSocket_polls_before_stop_counterexample:
  "CloseWebSocket demo_handler [[demo_writable]] demo_client
     = Inr (\<lparr>web_socket = None\<rparr>, demo_teardown_trace)
   \<and> precedes (Sleep 1) (StoreWatchdogRunning False) demo_teardown_trace
   \<and> \<not> precedes (StoreWatchdogRunning False) (Sleep 1) demo_teardown_trace"
  using demo_teardown
  by (simp add: demo_teardown_trace_def demo_session_def)

text \<open>
  Claim C9, amended: when the teardown of a client that owns a session returns, it has
  performed these steps in this order. First it polls, sleeping one second at a time, until
  the outbound queue is empty; during the polling the running flag is not cleared and the
  queue is not cleared. Then the destructor of the session clears the queue, which is
  empty by then, so no message is discarded; stores false into the running flag under the
  mutex; joins the watchdog thread; clears the handler, handle and context pointers;
  destroys the mutex and deletes the handoff. Last the client's pointer is set to null.
\<close>

theorem CloseWebSocket_order:
  assumes c: "web_socket c = Some ws"
    and r: "CloseWebSocket Handle sched c = Inr (c', tr)"
  shows "web_socket c' = None \<and>
    (\<exists>polled. tr = trace ws @ polled @
        [ClearMessages [], MutexLock, StoreWatchdogRunning False, MutexUnlock, PthreadJoin,
         StoreHandler None, StoreHandle None, StoreContext None, MutexDestroy, DeleteQueue]
      \<and> StoreWatchdogRunning False \<notin> set polled
      \<and> (\<forall>ms. ClearMessages ms \<notin> set polled)
      \<and> (HasEnqueuedMessages ws \<longrightarrow> (\<exists>rest. polled = Sleep 1 # rest))
      \<and> (\<not> HasEnqueuedMessages ws \<longrightarrow> polled = []))"
proof -
  from c r obtain ws' where
    w: "CloseWebSocket_wait Handle sched ws = Inr ws'"
    and c': "c' = c\<lparr>web_socket := None\<rparr>"
    and t: "tr = trace (WebSocket_destroy ws')"
    by (auto simp add: CloseWebSocket_def split: sum.splits)
  from CloseWebSocket_wait_drained [OF w] have e: "enqueued_messages ws' = []" .
  from CloseWebSocket_wait_trace [OF w] obtain polled where
    p: "trace ws' = trace ws @ polled" "StoreWatchdogRunning False \<notin> set polled"
      "\<forall>ms. ClearMessages ms \<notin> set polled"
      "HasEnqueuedMessages ws \<longrightarrow> (\<exists>t'. polled = Sleep 1 # t')"
      "\<not> HasEnqueuedMessages ws \<longrightarrow> polled = []"
    by blast
  from t e p(1) have "tr = trace ws @ polled @
        [ClearMessages [], MutexLock, StoreWatchdogRunning False, MutexUnlock, PthreadJoin,
         StoreHandler None, StoreHandle None, StoreContext None, MutexDestroy, DeleteQueue]"
    by (simp add: WebSocket_destroy_trace)
  with c' p show ?thesis by auto
qed

theorem CloseWebSocket_order_witness:
  "web_socket demo_client = Some demo_session
   \<and> CloseWebSocket demo_handler [[demo_writable]] demo_client
       = Inr (\<lparr>web_socket = None\<rparr>, demo_teardown_trace)
   \<and> HasEnqueuedMessages demo_session
   \<and> (\<exists>polled. demo_teardown_trace = trace demo_session @ polled @
        [ClearMessages [], MutexLock, StoreWatchdogRunning False, MutexUnlock, PthreadJoin,
         StoreHandler None, StoreHandle None, StoreContext None, MutexDestroy, DeleteQueue]
      \<and> StoreWatchdogRunning False \<notin> set polled
      \<and> (\<forall>ms. ClearMessages ms \<notin> set polled)
      \<and> (\<exists>rest. polled = Sleep 1 # rest))"
proof -
  have c: "web_socket demo_client = Some demo_session"
    by (simp add: demo_client_def)
  have h: "HasEnqueuedMessages demo_session"
    by (simp add: HasEnqueuedMessages_def demo_session_def)
  from CloseWebSocket_order [OF c demo_teardown] c h demo_teardown
  show ?thesis by blast
qed

section \<open>The synchronous call\<close>

text \<open>
  Claim C1: on a client that owns a session, \<open>SendSynchronousRequest\<close> returns the empty
  string when the state is not Connected, whatever the schedule of the other thread (it
  does not wait), and leaves the session as it was, trace included (it does not call
  \<open>SendAsync\<close>, which would lock the mutex). When the state is Connected it calls
  \<open>SendAsync\<close> with the request, then \<open>Take\<close> on the queue of the session, and returns
  what \<open>Take\<close> returns; it does not return when \<open>Take\<close> does not.
\<close>

theorem SendSynchronousRequest_spec:
  assumes c: "web_socket c = Some ws"
  shows "(connection_state ws \<noteq> CONNECTED \<longrightarrow>
            SendSynchronousRequest request sched c = Inr ([], c))
       \<and> (connection_state ws = CONNECTED \<longrightarrow>
            SendSynchronousRequest request sched c =
              (case Take sched (queue (SendAsync request ws)) of
                 None \<Rightarrow> Inl NeverReturns
               | Some (response_message, q) \<Rightarrow>
                   Inr (response_message,
                        c\<lparr>web_socket := Some ((SendAsync request ws)\<lparr>queue := q\<rparr>)\<rparr>)))"
  using c by (simp add: SendSynchronousRequest_def GetConnectState_def GetQueue_def Let_def)

theorem SendSynchronousRequest_spec_witness:
  "web_socket demo_client = Some demo_session
   \<and> connection_state demo_session = CONNECTED
   \<and> SendSynchronousRequest ''ping'' [[''pong'']] demo_client
       = Inr (''pong'',
              \<lparr>web_socket = Some ((SendAsync ''ping'' demo_session)
                 \<lparr>queue := \<lparr>ready_to_unlock = True, element = ''pong''\<rparr>\<rparr>)\<rparr>)
   \<and> SendSynchronousRequest ''ping'' [] demo_client = Inl NeverReturns
   \<and> connection_state (demo_session\<lparr>connection_state := DISCONNECTED\<rparr>) \<noteq> CONNECTED
   \<and> SendSynchronousRequest ''ping'' []
        \<lparr>web_socket = Some (demo_session\<lparr>connection_state := DISCONNECTED\<rparr>)\<rparr>
       = Inr ([], \<lparr>web_socket = Some (demo_session\<lparr>connection_state := DISCONNECTED\<rparr>)\<rparr>)"
  using SendSynchronousRequest_spec [of demo_client demo_session "''ping''" "[[''pong'']]"]
    SendSynchronousRequest_spec [of demo_client demo_session "''ping''" "[]"]
    SendSynchronousRequest_spec
      [of "\<lparr>web_socket = Some (demo_session\<lparr>connection_state := DISCONNECTED\<rparr>)\<rparr>"
          "demo_session\<lparr>connection_state := DISCONNECTED\<rparr>" "''ping''" "[]"]
  by (simp add: demo_client_def demo_session_def Take_def offer_all_def Offer_def
      SendAsync_def session_defs Let_def)

text \<open>
  The reset at the start of \<open>Take\<close> reaches the synchronous call: when the response has
  been offered to the queue before the caller arrives at \<open>Take\<close>, the call discards it and
  never returns, although the response was delivered.
\<close>

lemma SendSynchronousRequest_loses_early_response:
  "SendSynchronousRequest ''ping'' []
     \<lparr>web_socket = Some (demo_session\<lparr>queue := Offer ''pong'' (queue demo_session)\<rparr>)\<rparr>
   = Inl NeverReturns"
  by (simp add: SendSynchronousRequest_def GetConnectState_def GetQueue_def Let_def
      demo_session_def Take_def Offer_def SendAsync_def session_defs)

end
